theory Spec2Isabelle
  imports
    Complex_Main
    "HOL-Library.Multiset"
    "HOL-Library.Char_ord"
    "HOL-Library.List_Lexorder"
    "HOL-Library.Product_Lexorder"
begin

section \<open>Sales insights: the aggregation and Pareto engine\<close>

text \<open>
  A shallow embedding of \<^verbatim>\<open>sales_analysis.py\<close> (class \<^verbatim>\<open>SalesAnalyzer\<close>) and of the data
  functions of \<^verbatim>\<open>sales_dashboard.py\<close>. A DataFrame is the list of its rows, in row order.
  The numeric columns Sales, Profit and Quantity hold integers, as in the sample dataset
  of \<^verbatim>\<open>load_data\<close>; every cell is present (no missing value). Sums of integer columns are
  exact. A value that pandas computes by a true division is a \<open>float64\<close>: a finite value,
  kept as an exact rational (binary rounding is left out), or one of the three special
  values that a division by zero produces.
\<close>

subsection \<open>Floating-point results\<close>

datatype float64 = Fin rat | PInf | NInf | NaN

text \<open>\<^verbatim>\<open>a / b\<close> on int64 values under numpy: no exception, a zero divisor gives inf, -inf or nan.\<close>

definition true_divide :: "int \<Rightarrow> int \<Rightarrow> float64" where
  "true_divide a b =
     (if b \<noteq> 0 then Fin (of_int a / of_int b)
      else if 0 < a then PInf
      else if a < 0 then NInf
      else NaN)"

text \<open>\<^verbatim>\<open>x * 100\<close>.\<close>

fun times100 :: "float64 \<Rightarrow> float64" where
  "times100 (Fin r) = Fin (r * 100)"
| "times100 PInf = PInf"
| "times100 NInf = NInf"
| "times100 NaN = NaN"

text \<open>The percentage idiom of the source, \<^verbatim>\<open>(a / b) * 100\<close>.\<close>

definition percent :: "int \<Rightarrow> int \<Rightarrow> float64" where
  "percent a b = times100 (true_divide a b)"

fun fadd :: "float64 \<Rightarrow> float64 \<Rightarrow> float64" where
  "fadd NaN y = NaN"
| "fadd x NaN = NaN"
| "fadd (Fin a) (Fin b) = Fin (a + b)"
| "fadd PInf NInf = NaN"
| "fadd NInf PInf = NaN"
| "fadd PInf y = PInf"
| "fadd x PInf = PInf"
| "fadd NInf y = NInf"
| "fadd x NInf = NInf"



definition isna :: "float64 \<Rightarrow> bool" where
  "isna x = (x = NaN)"

definition is_finite :: "float64 \<Rightarrow> bool" where
  "is_finite x = (case x of Fin r \<Rightarrow> True | _ \<Rightarrow> False)"

text \<open>\<^verbatim>\<open>numpy.cumsum\<close>: the running total, the first entry being the first value.\<close>

fun running :: "float64 \<Rightarrow> float64 list \<Rightarrow> float64 list" where
  "running acc [] = []"
| "running acc (x # xs) = fadd acc x # running (fadd acc x) xs"

fun np_cumsum :: "float64 list \<Rightarrow> float64 list" where
  "np_cumsum [] = []"
| "np_cumsum (x # xs) = x # running x xs"

text \<open>
  \<^verbatim>\<open>Series.cumsum()\<close> with its default \<^verbatim>\<open>skipna=True\<close>: nan entries count as 0 in the
  running total and are put back as nan in the result.
\<close>

definition cumsum :: "float64 list \<Rightarrow> float64 list" where
  "cumsum xs =
     (let mask = map isna xs;
          vals = map (\<lambda>x. if isna x then Fin 0 else x) xs;
          result = np_cumsum vals
      in map2 (\<lambda>m r. if m then NaN else r) mask result)"

subsection \<open>Order records and frames\<close>

datatype timestamp = Timestamp (year: int) (month: int) (day: int)

text \<open>The OrderDate cell of a loaded frame: text from the CSV file, or a parsed date.\<close>

datatype datecell = DStr string | DTime timestamp

record 'd order =
  OrderID :: int
  CustomerName :: string
  ProductName :: string
  Category :: string
  Region :: string
  OrderDate :: 'd
  Sales :: int
  Profit :: int
  Quantity :: int

record clean_row = "timestamp order" +
  Month :: int
  MonthName :: string
  Year :: int
  Profit_Margin :: float64

datatype error = DateParseError | ZeroDivisionError

text \<open>Timestamps compare chronologically.\<close>

definition ts_le :: "timestamp \<Rightarrow> timestamp \<Rightarrow> bool" where
  "ts_le a b =
     (year a < year b \<or>
      (year a = year b \<and> (month a < month b \<or> (month a = month b \<and> day a \<le> day b))))"

text \<open>\<^verbatim>\<open>strftime('%B')\<close>: the full month name of a date (months are 1 to 12).\<close>

definition strftime_B :: "timestamp \<Rightarrow> string" where
  "strftime_B t =
     (if month t = 1 then ''January'' else if month t = 2 then ''February''
      else if month t = 3 then ''March'' else if month t = 4 then ''April''
      else if month t = 5 then ''May'' else if month t = 6 then ''June''
      else if month t = 7 then ''July'' else if month t = 8 then ''August''
      else if month t = 9 then ''September'' else if month t = 10 then ''October''
      else if month t = 11 then ''November'' else ''December'')"

subsection \<open>The normalizer: \<^verbatim>\<open>clean_data\<close>\<close>

text \<open>
  \<^verbatim>\<open>pd.to_datetime\<close> on one cell. The text parser of pandas is a parameter \<open>parse\<close>
  (\<open>None\<close>: the text is no date, pandas raises); a cell that is a date already is kept.
\<close>

fun to_datetime :: "(string \<Rightarrow> timestamp option) \<Rightarrow> datecell \<Rightarrow> timestamp option" where
  "to_datetime parse (DTime t) = Some t"
| "to_datetime parse (DStr s) = parse s"

fun to_datetime_col ::
  "(string \<Rightarrow> timestamp option) \<Rightarrow> datecell list \<Rightarrow> timestamp list option" where
  "to_datetime_col parse [] = Some []"
| "to_datetime_col parse (c # cs) =
     (case to_datetime parse c of
        None \<Rightarrow> None
      | Some t \<Rightarrow>
          (case to_datetime_col parse cs of None \<Rightarrow> None | Some ts \<Rightarrow> Some (t # ts)))"

text \<open>One row after the date conversion and the four derived columns.\<close>

definition derive :: "timestamp \<Rightarrow> datecell order \<Rightarrow> clean_row" where
  "derive t r =
     \<lparr>OrderID = OrderID r, CustomerName = CustomerName r, ProductName = ProductName r,
      Category = Category r, Region = Region r, OrderDate = t,
      Sales = Sales r, Profit = Profit r, Quantity = Quantity r,
      Month = month t, MonthName = strftime_B t, Year = year t,
      Profit_Margin = percent (Profit r) (Sales r)\<rparr>"

text \<open>\<^verbatim>\<open>drop_duplicates()\<close>: the first of equal rows is kept, in row order.\<close>

definition drop_duplicates :: "'a list \<Rightarrow> 'a list" where
  "drop_duplicates xs = rev (remdups (rev xs))"

definition clean_data ::
  "(string \<Rightarrow> timestamp option) \<Rightarrow> datecell order list \<Rightarrow> error + clean_row list" where
  "clean_data parse df =
     (case to_datetime_col parse (map OrderDate df) of
        None \<Rightarrow> Inl DateParseError
      | Some ts \<Rightarrow> Inr (drop_duplicates (map2 derive ts df)))"

text \<open>
  A cleaned frame read as the input of \<^verbatim>\<open>clean_data\<close> again: its OrderDate cells are
  dates. The four derived columns are not part of the input row, since \<^verbatim>\<open>clean_data\<close>
  assigns each of them anew without reading it.
\<close>

definition as_input :: "clean_row \<Rightarrow> datecell order" where
  "as_input r =
     \<lparr>OrderID = OrderID r, CustomerName = CustomerName r, ProductName = ProductName r,
      Category = Category r, Region = Region r, OrderDate = DTime (OrderDate r),
      Sales = Sales r, Profit = Profit r, Quantity = Quantity r\<rparr>"

text \<open>A normalized frame: derived columns as \<^verbatim>\<open>clean_data\<close> computes them, no equal rows.\<close>

definition normalized :: "clean_row list \<Rightarrow> bool" where
  "normalized df =
     (distinct df \<and>
      list_all (\<lambda>r. Month r = month (OrderDate r) \<and> MonthName r = strftime_B (OrderDate r) \<and>
                    Year r = year (OrderDate r) \<and>
                    Profit_Margin r = percent (Profit r) (Sales r)) df)"

subsection \<open>Grouping, sorting, truncation\<close>

text \<open>
  \<^verbatim>\<open>groupby(key)\<close> with its defaults: one group per key value of the frame, the groups in
  ascending key order, the rows of a group in frame order.
\<close>

definition groupby :: "('r \<Rightarrow> 'k::linorder) \<Rightarrow> 'r list \<Rightarrow> ('k \<times> 'r list) list" where
  "groupby key df = map (\<lambda>k. (k, filter (\<lambda>r. key r = k) df)) (sort (remdups (map key df)))"

text \<open>
  \<^verbatim>\<open>sort_values(col, ascending=False)\<close>. The source passes no \<^verbatim>\<open>kind\<close>, so pandas sorts with
  its default kind, which it does not document as stable. The permutation that the sort
  finds for a column of values is the parameter \<open>indexer\<close>; the rows are taken in its order.
\<close>

definition sort_values :: "(int list \<Rightarrow> nat list) \<Rightarrow> ('a \<Rightarrow> int) \<Rightarrow> 'a list \<Rightarrow> 'a list" where
  "sort_values indexer col rows = map ((!) rows) (indexer (map col rows))"

text \<open>What every sort kind guarantees: a permutation of the positions, values descending.\<close>

definition valid_indexer :: "(int list \<Rightarrow> nat list) \<Rightarrow> bool" where
  "valid_indexer indexer =
     (\<forall>vs. mset (indexer vs) = mset [0..<length vs] \<and>
           sorted_wrt (\<lambda>a b. b \<le> a) (map ((!) vs) (indexer vs)))"

text \<open>A stable descending sort: equal values stay in their order.\<close>

definition stable_indexer :: "int list \<Rightarrow> nat list" where
  "stable_indexer vs = map snd (sort_key (\<lambda>p. - fst p) (zip vs [0..<length vs]))"


text \<open>\<^verbatim>\<open>head(n)\<close> is \<^verbatim>\<open>iloc[:n]\<close>: a negative \<open>n\<close> drops the last \<open>-n\<close> rows.\<close>

definition head :: "int \<Rightarrow> 'a list \<Rightarrow> 'a list" where
  "head n xs = (if 0 \<le> n then take (nat n) xs else take (length xs - nat (- n)) xs)"

subsection \<open>The aggregation engine\<close>

text \<open>
  The frame after \<^verbatim>\<open>groupby(key).agg({'Sales': 'sum', 'Profit': 'sum', 'Quantity': 'sum',
  'OrderID': 'count'})\<close>, the renaming to Order\_Count and the added Profit\_Margin column.
  \<open>gkey\<close> is the index of the frame.
\<close>

record 'k agg_row =
  gkey :: 'k
  Sales_sum :: int
  Profit_sum :: int
  Quantity_sum :: int
  Order_Count :: nat
  Margin :: float64


definition agg :: "'k \<times> ('d, 'z) order_scheme list \<Rightarrow> 'k agg_row" where
  "agg g =
     (let rs = snd g;
          s = sum_list (map Sales rs);
          p = sum_list (map Profit rs)
      in \<lparr>gkey = fst g, Sales_sum = s, Profit_sum = p,
          Quantity_sum = sum_list (map Quantity rs), Order_Count = length rs,
          Margin = percent p s\<rparr>)"

definition aggregate ::
  "(('d, 'z) order_scheme \<Rightarrow> 'k::linorder) \<Rightarrow> ('d, 'z) order_scheme list \<Rightarrow> 'k agg_row list" where
  "aggregate key df = map agg (groupby key df)"

text \<open>The frame \<^verbatim>\<open>product_analysis\<close> (all groups, sorted) and its first \<^verbatim>\<open>top_n\<close> rows.\<close>

definition product_analysis ::
  "(int list \<Rightarrow> nat list) \<Rightarrow> ('d, 'z) order_scheme list \<Rightarrow> string agg_row list" where
  "product_analysis indexer df = sort_values indexer Sales_sum (aggregate ProductName df)"

definition top_products_analysis ::
  "(int list \<Rightarrow> nat list) \<Rightarrow> ('d, 'z) order_scheme list \<Rightarrow> int \<Rightarrow> string agg_row list" where
  "top_products_analysis indexer df top_n = head top_n (product_analysis indexer df)"

definition customer_analysis ::
  "(int list \<Rightarrow> nat list) \<Rightarrow> ('d, 'z) order_scheme list \<Rightarrow> string agg_row list" where
  "customer_analysis indexer df = sort_values indexer Sales_sum (aggregate CustomerName df)"

definition top_customers_analysis ::
  "(int list \<Rightarrow> nat list) \<Rightarrow> ('d, 'z) order_scheme list \<Rightarrow> int \<Rightarrow> string agg_row list" where
  "top_customers_analysis indexer df top_n = head top_n (customer_analysis indexer df)"




text \<open>
  \<^verbatim>\<open>monthly_trend_analysis\<close>: the groups of \<^verbatim>\<open>['Year', 'Month', 'MonthName']\<close>, left in the
  order of \<^verbatim>\<open>groupby\<close> (\<^verbatim>\<open>reset_index\<close> keeps the rows where they are).
\<close>

definition month_key :: "clean_row \<Rightarrow> int \<times> int \<times> string" where
  "month_key r = (Year r, Month r, MonthName r)"

definition monthly_trend_analysis :: "clean_row list \<Rightarrow> (int \<times> int \<times> string) agg_row list" where
  "monthly_trend_analysis df = aggregate month_key df"

text \<open>
  The frame \<^verbatim>\<open>trend\<close> of \<^verbatim>\<open>render_monthly_trend\<close>: nothing is drawn for an empty frame;
  else the same groups, then \<^verbatim>\<open>sort_values(['Year', 'Month'])\<close>, which for several
  columns is a stable lexicographic sort.
\<close>

definition render_monthly_trend ::
  "clean_row list \<Rightarrow> ((int \<times> int \<times> string) \<times> int \<times> int) list option" where
  "render_monthly_trend df =
     (if df = [] then None
      else Some (sort_key (\<lambda>row. (fst (fst row), fst (snd (fst row))))
                  (map (\<lambda>g. (fst g, sum_list (map Sales (snd g)), sum_list (map Profit (snd g))))
                     (groupby month_key df))))"

text \<open>Year before month: the chronological order of two (Year, Month) pairs.\<close>

definition chrono_le :: "int \<times> int \<Rightarrow> int \<times> int \<Rightarrow> bool" where
  "chrono_le a b = (fst a < fst b \<or> (fst a = fst b \<and> snd a \<le> snd b))"

definition chrono_less :: "int \<times> int \<Rightarrow> int \<times> int \<Rightarrow> bool" where
  "chrono_less a b = (fst a < fst b \<or> (fst a = fst b \<and> snd a < snd b))"

definition year_month :: "(int \<times> int \<times> string) \<Rightarrow> int \<times> int" where
  "year_month k = (fst k, fst (snd k))"

subsection \<open>The Pareto analyzer\<close>

text \<open>\<^verbatim>\<open>groupby(column)[metric].sum().sort_values(ascending=False)\<close>: (group, total) pairs.\<close>

definition pareto_data ::
  "(int list \<Rightarrow> nat list) \<Rightarrow> ('r \<Rightarrow> 'k::linorder) \<Rightarrow> ('r \<Rightarrow> int) \<Rightarrow> 'r list \<Rightarrow> ('k \<times> int) list" where
  "pareto_data indexer column metric df =
     sort_values indexer snd
       (map (\<lambda>g. (fst g, sum_list (map metric (snd g)))) (groupby column df))"

definition pareto_data_pct :: "('k \<times> int) list \<Rightarrow> float64 list" where
  "pareto_data_pct pd =
     (let total = sum_list (map snd pd) in map (\<lambda>p. percent (snd p) total) pd)"

definition cumulative_pct :: "('k \<times> int) list \<Rightarrow> float64 list" where
  "cumulative_pct pd = cumsum (pareto_data_pct pd)"



text \<open>
  \<^verbatim>\<open>pareto_analysis\<close> returns the three series. On its way it prints
  \<^verbatim>\<open>len(threshold_80)/len(pareto_data)*100\<close>, a division of Python integers, which raises
  when there is no group at all.
\<close>

definition pareto_analysis ::
  "(int list \<Rightarrow> nat list) \<Rightarrow> ('r \<Rightarrow> 'k::linorder) \<Rightarrow> ('r \<Rightarrow> int) \<Rightarrow> 'r list \<Rightarrow>
     error + (('k \<times> int) list \<times> ('k \<times> float64) list \<times> ('k \<times> float64) list)" where
  "pareto_analysis indexer column metric df =
     (let pd = pareto_data indexer column metric df
      in if length pd = 0 then Inl ZeroDivisionError
         else Inr (pd, zip (map fst pd) (pareto_data_pct pd), zip (map fst pd) (cumulative_pct pd)))"

subsection \<open>Key performance indicators and filters\<close>

record kpis =
  Total_Sales :: int
  Total_Profit :: int
  Total_Orders :: nat
  Total_Quantity :: int
  Average_Order_Value :: float64
  Overall_Profit_Margin :: float64

text \<open>\<^verbatim>\<open>calculate_kpis\<close> of the analyzer: both ratios are numpy divisions, without a guard.\<close>

definition calculate_kpis :: "('d, 'z) order_scheme list \<Rightarrow> kpis" where
  "calculate_kpis df =
     (let ts = sum_list (map Sales df); tp = sum_list (map Profit df); n = length df
      in \<lparr>Total_Sales = ts, Total_Profit = tp, Total_Orders = n,
          Total_Quantity = sum_list (map Quantity df),
          Average_Order_Value = true_divide ts (int n),
          Overall_Profit_Margin = percent tp ts\<rparr>)"

text \<open>
  \<^verbatim>\<open>render_kpis\<close> of the dashboard: the six values it shows. The sums are read only from
  a frame that is not empty, and each ratio has its guard.
\<close>

record dashboard_kpis =
  total_sales :: rat
  total_profit :: rat
  total_orders :: int
  total_quantity :: int
  aov :: rat
  margin :: rat

definition render_kpis :: "('d, 'z) order_scheme list \<Rightarrow> dashboard_kpis" where
  "render_kpis df =
     (let ts = (if df \<noteq> [] then of_int (sum_list (map Sales df)) else 0);
          tp = (if df \<noteq> [] then of_int (sum_list (map Profit df)) else 0);
          n = int (length df);
          q = (if df \<noteq> [] then sum_list (map Quantity df) else 0)
      in \<lparr>total_sales = ts, total_profit = tp, total_orders = n, total_quantity = q,
          aov = (if n > 0 then ts / of_int n else 0),
          margin = (if ts > 0 then (tp / ts) * 100 else 0)\<rparr>)"

text \<open>\<^verbatim>\<open>apply_filters\<close>: the date range always, a list of values only when it is not empty.\<close>

definition apply_filters ::
  "clean_row list \<Rightarrow> timestamp \<times> timestamp \<Rightarrow> string list \<Rightarrow> string list \<Rightarrow> clean_row list" where
  "apply_filters df date_range regions categories =
     (let start_date = fst date_range; end_date = snd date_range;
          filtered = filter (\<lambda>r. ts_le start_date (OrderDate r) \<and> ts_le (OrderDate r) end_date) df;
          filtered = (if regions \<noteq> [] then filter (\<lambda>r. Region r \<in> set regions) filtered
                      else filtered);
          filtered = (if categories \<noteq> [] then filter (\<lambda>r. Category r \<in> set categories) filtered
                      else filtered)
      in filtered)"

subsection \<open>The sample dataset of \<^verbatim>\<open>load_data\<close>\<close>

definition sample_row ::
  "int \<Rightarrow> string \<Rightarrow> string \<Rightarrow> string \<Rightarrow> string \<Rightarrow> string \<Rightarrow> int \<Rightarrow> int \<Rightarrow> int \<Rightarrow> datecell order" where
  "sample_row i c p cat reg d s pr q =
     \<lparr>OrderID = i, CustomerName = c, ProductName = p, Category = cat, Region = reg,
      OrderDate = DStr d, Sales = s, Profit = pr, Quantity = q\<rparr>"

definition sample_data :: "datecell order list" where
  "sample_data =
     [sample_row 1 ''Alice'' ''Smartphone'' ''Electronics'' ''North'' ''2023-01-05'' 20000 3000 1,
      sample_row 2 ''Bob'' ''Laptop'' ''Electronics'' ''South'' ''2023-01-12'' 55000 8000 1,
      sample_row 3 ''Charlie'' ''Desk'' ''Furniture'' ''East'' ''2023-01-20'' 15000 2500 1,
      sample_row 4 ''Diana'' ''Chair'' ''Furniture'' ''West'' ''2023-02-02'' 7000 1200 2,
      sample_row 5 ''Edward'' ''Blender'' ''Home & Garden'' ''North'' ''2023-02-10'' 4000 600 1,
      sample_row 6 ''Frank'' ''Headphones'' ''Electronics'' ''South'' ''2023-02-18'' 3000 500 1,
      sample_row 7 ''Grace'' ''TV'' ''Electronics'' ''East'' ''2023-03-01'' 45000 6000 1,
      sample_row 8 ''Helen'' ''Coffee Table'' ''Furniture'' ''West'' ''2023-03-09'' 9000 1500 1]"


text \<open>
  A parser for the \<^verbatim>\<open>YYYY-MM-DD\<close> form of the sample dataset, to run \<^verbatim>\<open>clean_data\<close> on
  concrete frames.
\<close>

definition digit :: "char \<Rightarrow> int option" where
  "digit c = (if CHR ''0'' \<le> c \<and> c \<le> CHR ''9'' then Some (int (of_char c) - 48) else None)"

fun digits :: "int \<Rightarrow> string \<Rightarrow> int option" where
  "digits acc [] = Some acc"
| "digits acc (c # cs) = (case digit c of None \<Rightarrow> None | Some d \<Rightarrow> digits (10 * acc + d) cs)"

definition parse_iso :: "string \<Rightarrow> timestamp option" where
  "parse_iso s =
     (if length s = 10 \<and> s ! 4 = CHR ''-'' \<and> s ! 7 = CHR ''-'' then
        (case (digits 0 (take 4 s), digits 0 (take 2 (drop 5 s)), digits 0 (drop 8 s)) of
           (Some y, Some m, Some d) \<Rightarrow>
             (if 1 \<le> m \<and> m \<le> 12 \<and> 1 \<le> d \<and> d \<le> 31 then Some (Timestamp y m d) else None)
         | _ \<Rightarrow> None)
      else None)"

text \<open>The cleaned sample dataset.\<close>

definition sample_clean :: "clean_row list" where
  "sample_clean = (case clean_data parse_iso sample_data of Inr df \<Rightarrow> df | Inl e \<Rightarrow> [])"

text \<open>Orders of January 2023, February 2023 and January 2024, and their cleaned frame.\<close>

definition two_year_orders :: "datecell order list" where
  "two_year_orders =
     [sample_row 1 ''Ann'' ''Cup'' ''Kitchen'' ''North'' ''2024-01-07'' 300 30 1,
      sample_row 2 ''Ben'' ''Pen'' ''Office'' ''South'' ''2023-02-01'' 50 5 2,
      sample_row 3 ''Cy'' ''Cup'' ''Kitchen'' ''North'' ''2023-01-05'' 100 50 1]"

definition two_year_clean :: "clean_row list" where
  "two_year_clean = (case clean_data parse_iso two_year_orders of Inr df \<Rightarrow> df | Inl e \<Rightarrow> [])"



definition zero_orders :: "datecell order list" where
  "zero_orders = [sample_row 1 ''Ann'' ''Cup'' ''Kitchen'' ''North'' ''2023-01-05'' 0 0 1]"

definition offsetting_orders :: "datecell order list" where
  "offsetting_orders =
     [sample_row 1 ''Ann'' ''Cup'' ''Kitchen'' ''North'' ''2023-01-05'' 100 5 1,
      sample_row 2 ''Ben'' ''Pen'' ''Office'' ''South'' ''2023-01-06'' 100 (- 5) 1]"

section \<open>Sorting: what the analyses may rely on\<close>

lemma indexer_positions:
  "mset (map snd (sort_key f (zip vs [0..<length vs]))) = mset [0..<length vs]"
proof -
  have "mset (map snd (sort_key f (zip vs [0..<length vs]))) = mset (map snd (zip vs [0..<length vs]))"
    by (simp only: mset_map mset_sort)
  also have "map snd (zip vs [0..<length vs]) = [0..<length vs]"
    by (simp only: map_snd_zip length_upt minus_nat.diff_0)
  finally show ?thesis .
qed

lemma indexer_values:
  assumes "set s = set (zip vs [0..<length vs])"
  shows "map ((!) vs) (map snd s) = map fst s"
proof -
  have "vs ! snd p = fst p" if "p \<in> set s" for p
    using that assms by (auto simp: in_set_zip)
  thus ?thesis by simp
qed

lemma stable_indexer_descending:
  "sorted_wrt (\<lambda>a b. b \<le> a) (map ((!) vs) (stable_indexer vs))"
proof -
  let ?s = "sort_key (\<lambda>p. - fst p) (zip vs [0..<length vs])"
  have "sorted (map (\<lambda>p. - fst p) ?s)" by (rule sorted_sort_key)
  hence "sorted_wrt (\<lambda>a b. b \<le> a) (map fst ?s)"
    by (simp add: sorted_wrt_map)
  moreover have "map ((!) vs) (map snd ?s) = map fst ?s"
    by (rule indexer_values) simp
  ultimately show ?thesis by (simp only: stable_indexer_def)
qed

lemma valid_stable_indexer: "valid_indexer stable_indexer"
proof -
  have "mset (stable_indexer vs) = mset [0..<length vs]" for vs
    unfolding stable_indexer_def by (rule indexer_positions)
  thus ?thesis
    unfolding valid_indexer_def using stable_indexer_descending by blast
qed




lemma mset_sort_values:
  assumes "valid_indexer indexer"
  shows "mset (sort_values indexer col rows) = mset rows"
proof -
  have "mset (indexer (map col rows)) = mset [0..<length rows]"
    using assms by (simp add: valid_indexer_def)
  hence "image_mset ((!) rows) (mset (indexer (map col rows))) = image_mset ((!) rows) (mset [0..<length rows])"
    by simp
  hence "mset (map ((!) rows) (indexer (map col rows))) = mset (map ((!) rows) [0..<length rows])"
    by simp
  thus ?thesis by (simp add: sort_values_def map_nth)
qed



lemma length_sort_values:
  assumes "valid_indexer indexer"
  shows "length (sort_values indexer col rows) = length rows"
  using mset_sort_values[OF assms, of col rows] by (metis size_mset)

lemma set_sort_values:
  assumes "valid_indexer indexer"
  shows "set (sort_values indexer col rows) = set rows"
  using mset_sort_values[OF assms, of col rows] by (metis set_mset_mset)

lemma sum_list_sort_values:
  fixes f :: "'a \<Rightarrow> int"
  assumes "valid_indexer indexer"
  shows "sum_list (map f (sort_values indexer col rows)) = sum_list (map f rows)"
proof -
  have "mset (map f (sort_values indexer col rows)) = mset (map f rows)"
    using mset_sort_values[OF assms, of col rows] by (metis mset_map)
  hence "sum_mset (mset (map f (sort_values indexer col rows))) = sum_mset (mset (map f rows))"
    by (simp only:)
  thus ?thesis by (simp only: sum_mset_sum_list)
qed

lemma distinct_map_sort_values:
  assumes "valid_indexer indexer"
  shows "distinct (map f (sort_values indexer col rows)) = distinct (map f rows)"
proof -
  have "mset (map f (sort_values indexer col rows)) = mset (map f rows)"
    using mset_sort_values[OF assms, of col rows] by (metis mset_map)
  thus ?thesis by (metis mset_eq_imp_distinct_iff)
qed

section \<open>Grouping and totals\<close>

lemma map_fst_groupby: "map fst (groupby key df) = sort (remdups (map key df))"
  by (simp add: groupby_def comp_def)

lemma distinct_groupby_keys: "distinct (map fst (groupby key df))"
  by (simp add: map_fst_groupby)

lemma sorted_groupby_keys: "sorted (map fst (groupby key df))"
  by (simp add: map_fst_groupby)

lemma set_groupby_keys: "set (map fst (groupby key df)) = key ` set df"
  by (simp add: map_fst_groupby)

lemma groupby_rows:
  "g \<in> set (groupby key df) \<Longrightarrow> snd g = filter (\<lambda>r. key r = fst g) df"
  by (auto simp: groupby_def)

lemma map_gkey_aggregate: "map gkey (aggregate key df) = map fst (groupby key df)"
  by (simp add: aggregate_def agg_def comp_def Let_def)

lemma sum_list_indicator:
  fixes c :: int
  shows "distinct ks \<Longrightarrow> a \<in> set ks \<Longrightarrow> (\<Sum>k\<leftarrow>ks. if a = k then c else 0) = c"
proof (induction ks)
  case Nil
  then show ?case by simp
next
  case (Cons k ks)
  show ?case
  proof (cases "a = k")
    case True
    with Cons.prems have "a \<notin> set ks" by simp
    hence "(\<Sum>k\<leftarrow>ks. if a = k then c else 0) = 0"
      by (induction ks) auto
    with True show ?thesis by simp
  next
    case False
    with Cons show ?thesis by simp
  qed
qed

lemma sum_over_groups:
  fixes f :: "'r \<Rightarrow> int"
  assumes "distinct ks" "key ` set df \<subseteq> set ks"
  shows "(\<Sum>k\<leftarrow>ks. sum_list (map f (filter (\<lambda>r. key r = k) df))) = sum_list (map f df)"
  using assms(2)
proof (induction df)
  case Nil
  then show ?case by simp
next
  case (Cons r df)
  have "(\<Sum>k\<leftarrow>ks. sum_list (map f (filter (\<lambda>x. key x = k) (r # df))))
      = (\<Sum>k\<leftarrow>ks. (if key r = k then f r else 0) + sum_list (map f (filter (\<lambda>x. key x = k) df)))"
    by (rule arg_cong[where f = sum_list], rule map_cong) auto
  also have "\<dots> = (\<Sum>k\<leftarrow>ks. if key r = k then f r else 0)
                 + (\<Sum>k\<leftarrow>ks. sum_list (map f (filter (\<lambda>x. key x = k) df)))"
    by (rule sum_list_addf)
  also have "(\<Sum>k\<leftarrow>ks. if key r = k then f r else 0) = f r"
    using assms(1) Cons.prems by (intro sum_list_indicator) auto
  also have "(\<Sum>k\<leftarrow>ks. sum_list (map f (filter (\<lambda>x. key x = k) df))) = sum_list (map f df)"
    using Cons by simp
  finally show ?case by simp
qed

lemma sum_groupby:
  fixes f :: "'r \<Rightarrow> int"
  shows "(\<Sum>g\<leftarrow>groupby key df. sum_list (map f (snd g))) = sum_list (map f df)"
proof -
  have "(\<Sum>g\<leftarrow>groupby key df. sum_list (map f (snd g)))
      = (\<Sum>k\<leftarrow>sort (remdups (map key df)). sum_list (map f (filter (\<lambda>r. key r = k) df)))"
    by (simp add: groupby_def comp_def)
  also have "\<dots> = sum_list (map f df)"
    by (rule sum_over_groups) auto
  finally show ?thesis .
qed

lemma map_Sales_sum_aggregate:
  "map Sales_sum (aggregate key df) = map (\<lambda>g. sum_list (map Sales (snd g))) (groupby key df)"
  by (simp add: aggregate_def agg_def comp_def Let_def)

lemma map_Profit_sum_aggregate:
  "map Profit_sum (aggregate key df) = map (\<lambda>g. sum_list (map Profit (snd g))) (groupby key df)"
  by (simp add: aggregate_def agg_def comp_def Let_def)

lemma map_Quantity_sum_aggregate:
  "map Quantity_sum (aggregate key df) = map (\<lambda>g. sum_list (map Quantity (snd g))) (groupby key df)"
  by (simp add: aggregate_def agg_def comp_def Let_def)

lemma aggregate_totals:
  "sum_list (map Sales_sum (aggregate key df)) = sum_list (map Sales df)"
  "sum_list (map Profit_sum (aggregate key df)) = sum_list (map Profit df)"
  "sum_list (map Quantity_sum (aggregate key df)) = sum_list (map Quantity df)"
  by (simp_all only: map_Sales_sum_aggregate map_Profit_sum_aggregate
        map_Quantity_sum_aggregate sum_groupby)

lemma aggregate_keys:
  "distinct (map gkey (aggregate key df))"
  "set (map gkey (aggregate key df)) = key ` set df"
  by (simp_all only: map_gkey_aggregate distinct_groupby_keys set_groupby_keys)

text \<open>
  Claim C3. Aggregation conserves totals: for every grouping key, the summed Sales, Profit
  and Quantity columns of the aggregate add up to the column totals of the input frame;
  the aggregate has one row per key value that occurs in the input and no other row.
  The same holds for the frame after it is sorted by Sales, whatever the sort kind.
\<close>

theorem aggregation_conserves_totals:
  assumes "valid_indexer indexer"
  shows "sum_list (map Sales_sum (aggregate key df)) = sum_list (map Sales df) \<and>
         sum_list (map Profit_sum (aggregate key df)) = sum_list (map Profit df) \<and>
         sum_list (map Quantity_sum (aggregate key df)) = sum_list (map Quantity df) \<and>
         distinct (map gkey (aggregate key df)) \<and>
         set (map gkey (aggregate key df)) = key ` set df \<and>
         sum_list (map Sales_sum (sort_values indexer Sales_sum (aggregate key df)))
           = sum_list (map Sales df) \<and>
         sum_list (map Profit_sum (sort_values indexer Sales_sum (aggregate key df)))
           = sum_list (map Profit df) \<and>
         sum_list (map Quantity_sum (sort_values indexer Sales_sum (aggregate key df)))
           = sum_list (map Quantity df) \<and>
         distinct (map gkey (sort_values indexer Sales_sum (aggregate key df))) \<and>
         set (map gkey (sort_values indexer Sales_sum (aggregate key df))) = key ` set df"
proof -
  have "set (map gkey (sort_values indexer Sales_sum (aggregate key df))) = key ` set df"
    using set_sort_values[OF assms, of Sales_sum "aggregate key df"] aggregate_keys(2)[of key df]
    by (simp only: set_map)
  thus ?thesis
    by (simp only: aggregate_totals aggregate_keys sum_list_sort_values[OF assms]
          distinct_map_sort_values[OF assms] simp_thms)
qed

theorem aggregation_conserves_totals_witness:
  "valid_indexer stable_indexer \<and>
   sum_list (map Sales_sum (sort_values stable_indexer Sales_sum (aggregate Region sample_data))) = 158000 \<and>
   sum_list (map Profit_sum (sort_values stable_indexer Sales_sum (aggregate Region sample_data))) = 23300 \<and>
   sum_list (map Quantity_sum (sort_values stable_indexer Sales_sum (aggregate Region sample_data))) = 9 \<and>
   set (map gkey (sort_values stable_indexer Sales_sum (aggregate Region sample_data)))
     = {''North'', ''South'', ''East'', ''West''}"
  using aggregation_conserves_totals[OF valid_stable_indexer, of Region sample_data]
  by (simp add: valid_stable_indexer sample_data_def sample_row_def insert_commute)

section \<open>Truncation to the first rows\<close>

lemma insort_key_map:
  "insort_key f (h x) (map h xs) = map h (insort_key (\<lambda>y. f (h y)) x xs)"
  by (induction xs) auto

lemma sort_key_map: "sort_key f (map h xs) = map h (sort_key (\<lambda>y. f (h y)) xs)"
  by (induction xs) (auto simp: insort_key_map)

lemma sort_values_stable_indexer:
  "sort_values stable_indexer col rows = sort_key (\<lambda>r. - col r) rows"
proof -
  let ?n = "length rows"
  let ?h = "\<lambda>i. (col (rows ! i), i)"
  let ?s = "sort_key (\<lambda>i. - col (rows ! i)) [0..<?n]"
  have zip: "zip (map col rows) [0..<?n] = map ?h [0..<?n]"
    by (rule nth_equalityI) auto
  have "stable_indexer (map col rows) = map snd (sort_key (\<lambda>p. - fst p) (map ?h [0..<?n]))"
    by (simp only: stable_indexer_def length_map zip)
  also have "\<dots> = map snd (map ?h ?s)"
    by (simp only: sort_key_map fst_conv)
  also have "\<dots> = ?s"
    by (simp add: comp_def)
  finally have ix: "stable_indexer (map col rows) = ?s" .
  have "sort_key (\<lambda>r. - col r) rows = sort_key (\<lambda>r. - col r) (map ((!) rows) [0..<?n])"
    by (simp only: map_nth)
  also have "\<dots> = map ((!) rows) ?s"
    by (rule sort_key_map)
  finally show ?thesis
    by (simp only: sort_values_def ix)
qed

lemma length_groupby: "length (groupby key df) = card (key ` set df)"
proof -
  have "length (groupby key df) = length (remdups (map key df))"
    by (simp add: groupby_def)
  also have "\<dots> = card (set (map key df))"
    by (simp only: length_remdups_card_conv)
  finally show ?thesis by simp
qed

lemma length_aggregate: "length (aggregate key df) = card (key ` set df)"
  by (simp add: aggregate_def length_groupby)

lemma length_sorted_aggregate:
  assumes "valid_indexer indexer"
  shows "length (sort_values indexer Sales_sum (aggregate key df)) = card (key ` set df)"
  by (simp only: length_sort_values[OF assms] length_aggregate)

lemma head_nonneg: "0 \<le> n \<Longrightarrow> head n xs = take (min (nat n) (length xs)) xs"
  by (simp add: head_def min_def)

lemma head_neg: "n < 0 \<Longrightarrow> head n xs = take (length xs - nat (- n)) xs"
  by (simp add: head_def)

text \<open>
  Claim C2, as amended. \<^verbatim>\<open>top_products_analysis\<close> and \<^verbatim>\<open>top_customers_analysis\<close> return a
  prefix of the full frame sorted by Sales, which has one row per product (customer).
  For \<open>top_n \<ge> 0\<close> the prefix has \<open>min top_n count\<close> rows: all rows when \<open>top_n\<close> exceeds the
  number of groups, none when \<open>top_n = 0\<close>. For \<open>top_n < 0\<close> it is not empty in general:
  \<^verbatim>\<open>head\<close> then drops the last \<open>-top_n\<close> rows and returns the \<open>count - (-top_n)\<close> rows
  before them.
\<close>

theorem top_n_truncation:
  assumes "valid_indexer indexer"
  shows "length (product_analysis indexer df) = card (ProductName ` set df) \<and>
         length (customer_analysis indexer df) = card (CustomerName ` set df) \<and>
         (0 \<le> top_n \<longrightarrow>
            top_products_analysis indexer df top_n
              = take (min (nat top_n) (card (ProductName ` set df))) (product_analysis indexer df) \<and>
            length (top_products_analysis indexer df top_n)
              = min (nat top_n) (card (ProductName ` set df)) \<and>
            top_customers_analysis indexer df top_n
              = take (min (nat top_n) (card (CustomerName ` set df))) (customer_analysis indexer df) \<and>
            length (top_customers_analysis indexer df top_n)
              = min (nat top_n) (card (CustomerName ` set df))) \<and>
         (top_n < 0 \<longrightarrow>
            top_products_analysis indexer df top_n
              = take (card (ProductName ` set df) - nat (- top_n)) (product_analysis indexer df) \<and>
            length (top_products_analysis indexer df top_n)
              = card (ProductName ` set df) - nat (- top_n) \<and>
            top_customers_analysis indexer df top_n
              = take (card (CustomerName ` set df) - nat (- top_n)) (customer_analysis indexer df) \<and>
            length (top_customers_analysis indexer df top_n)
              = card (CustomerName ` set df) - nat (- top_n))"
proof -
  have lp: "length (product_analysis indexer df) = card (ProductName ` set df)"
    unfolding product_analysis_def by (rule length_sorted_aggregate[OF assms])
  have lc: "length (customer_analysis indexer df) = card (CustomerName ` set df)"
    unfolding customer_analysis_def by (rule length_sorted_aggregate[OF assms])
  have pos: "top_products_analysis indexer df top_n
               = take (min (nat top_n) (card (ProductName ` set df))) (product_analysis indexer df)"
            "top_customers_analysis indexer df top_n
               = take (min (nat top_n) (card (CustomerName ` set df))) (customer_analysis indexer df)"
    if "0 \<le> top_n"
    using that lp lc
    by (simp_all add: top_products_analysis_def top_customers_analysis_def head_nonneg)
  have neg: "top_products_analysis indexer df top_n
               = take (card (ProductName ` set df) - nat (- top_n)) (product_analysis indexer df)"
            "top_customers_analysis indexer df top_n
               = take (card (CustomerName ` set df) - nat (- top_n)) (customer_analysis indexer df)"
    if "top_n < 0"
    using that lp lc
    by (simp_all add: top_products_analysis_def top_customers_analysis_def head_neg)
  have lpos: "length (top_products_analysis indexer df top_n)
                = min (nat top_n) (card (ProductName ` set df))"
             "length (top_customers_analysis indexer df top_n)
                = min (nat top_n) (card (CustomerName ` set df))"
    if "0 \<le> top_n"
    using pos[OF that] lp lc by simp_all
  have lneg: "length (top_products_analysis indexer df top_n)
                = card (ProductName ` set df) - nat (- top_n)"
             "length (top_customers_analysis indexer df top_n)
                = card (CustomerName ` set df) - nat (- top_n)"
    if "top_n < 0"
    using neg[OF that] lp lc by simp_all
  show ?thesis
    using lp lc pos neg lpos lneg by blast
qed

theorem top_n_truncation_witness:
  "valid_indexer stable_indexer \<and>
   map gkey (top_products_analysis stable_indexer sample_data 3) = [''Laptop'', ''TV'', ''Smartphone''] \<and>
   length (top_products_analysis stable_indexer sample_data 20) = 8 \<and>
   length (top_customers_analysis stable_indexer sample_data (- 5)) = 3"
proof -
  have c: "card (ProductName ` set sample_data) = 8" "card (CustomerName ` set sample_data) = 8"
    by (simp_all add: sample_data_def sample_row_def)
  have p: "map gkey (take 3 (product_analysis stable_indexer sample_data))
             = [''Laptop'', ''TV'', ''Smartphone'']"
    by (simp add: product_analysis_def sort_values_stable_indexer aggregate_def groupby_def
          agg_def sample_data_def sample_row_def)
  show ?thesis
    using top_n_truncation[OF valid_stable_indexer, of sample_data 3]
          top_n_truncation[OF valid_stable_indexer, of sample_data 20]
          top_n_truncation[OF valid_stable_indexer, of sample_data "- 5"]
    by (simp add: c p valid_stable_indexer)
qed

text \<open>
  The claim as stated (an empty result for every \<open>top_n \<le> 0\<close>) fails at \<open>top_n = -1\<close>
  on the sample dataset: seven of the eight products are returned.
\<close>

theorem top_n_nonpositive_counterexample:
  "map gkey (top_products_analysis stable_indexer sample_data (- 1))
     = [''Laptop'', ''TV'', ''Smartphone'', ''Desk'', ''Coffee Table'', ''Chair'', ''Blender''] \<and>
   top_products_analysis stable_indexer sample_data (- 1) \<noteq> []"
proof -
  have "map gkey (top_products_analysis stable_indexer sample_data (- 1))
     = [''Laptop'', ''TV'', ''Smartphone'', ''Desk'', ''Coffee Table'', ''Chair'', ''Blender'']"
    by (simp add: top_products_analysis_def head_def product_analysis_def
          sort_values_stable_indexer aggregate_def groupby_def agg_def sample_data_def sample_row_def)
  thus ?thesis by auto
qed




section \<open>The sort contract\<close>




lemma aggregate_row:
  assumes "a \<in> set (aggregate key df)"
  shows "Sales_sum a = sum_list (map Sales (filter (\<lambda>r. key r = gkey a) df))"
    and "Profit_sum a = sum_list (map Profit (filter (\<lambda>r. key r = gkey a) df))"
    and "Margin a = percent (Profit_sum a) (Sales_sum a)"
proof -
  from assms obtain g where g: "g \<in> set (groupby key df)" "a = agg g"
    by (auto simp: aggregate_def)
  have rs: "snd g = filter (\<lambda>r. key r = fst g) df"
    by (rule groupby_rows[OF g(1)])
  show "Sales_sum a = sum_list (map Sales (filter (\<lambda>r. key r = gkey a) df))"
    using g(2) rs by (simp add: agg_def Let_def)
  show "Profit_sum a = sum_list (map Profit (filter (\<lambda>r. key r = gkey a) df))"
    using g(2) rs by (simp add: agg_def Let_def)
  show "Margin a = percent (Profit_sum a) (Sales_sum a)"
    using g(2) by (simp add: agg_def Let_def)
qed




section \<open>Ratios after aggregation\<close>



section \<open>The sample frames\<close>

lemma sample_clean_dates:
  "map OrderDate sample_clean =
     [Timestamp 2023 1 5, Timestamp 2023 1 12, Timestamp 2023 1 20, Timestamp 2023 2 2,
      Timestamp 2023 2 10, Timestamp 2023 2 18, Timestamp 2023 3 1, Timestamp 2023 3 9]"
  by (simp add: sample_clean_def clean_data_def sample_data_def sample_row_def parse_iso_def
        digit_def drop_duplicates_def derive_def)

lemma clean_sample_data: "clean_data parse_iso sample_data = Inr sample_clean"
  by (simp add: sample_clean_def clean_data_def sample_data_def sample_row_def parse_iso_def
        digit_def)

section \<open>Filters\<close>

lemma apply_filters_eq:
  "apply_filters df (s, e) regions categories =
     filter (\<lambda>r. ts_le s (OrderDate r) \<and> ts_le (OrderDate r) e \<and>
                 (regions = [] \<or> Region r \<in> set regions) \<and>
                 (categories = [] \<or> Category r \<in> set categories)) df"
  by (auto simp: apply_filters_def Let_def intro: filter_cong)

text \<open>
  Claim C10. An empty region list, or an empty category list, restricts nothing:
  \<^verbatim>\<open>apply_filters\<close> then returns the rows inside the date range that pass the other list
  (if that one is not empty), not the empty frame.
\<close>

theorem empty_selection_selects_all:
  "apply_filters df (s, e) [] categories =
     filter (\<lambda>r. ts_le s (OrderDate r) \<and> ts_le (OrderDate r) e \<and>
                 (categories = [] \<or> Category r \<in> set categories)) df \<and>
   apply_filters df (s, e) regions [] =
     filter (\<lambda>r. ts_le s (OrderDate r) \<and> ts_le (OrderDate r) e \<and>
                 (regions = [] \<or> Region r \<in> set regions)) df \<and>
   apply_filters df (s, e) [] [] =
     filter (\<lambda>r. ts_le s (OrderDate r) \<and> ts_le (OrderDate r) e) df"
  by (simp add: apply_filters_eq)

theorem empty_selection_selects_all_witness:
  "map OrderID (apply_filters sample_clean (Timestamp 2023 1 1, Timestamp 2023 2 28) [] []) = [1, 2, 3, 4, 5, 6] \<and>
   map OrderID (apply_filters sample_clean (Timestamp 2023 1 1, Timestamp 2023 2 28) [] [''Furniture'']) = [3, 4] \<and>
   map OrderID (apply_filters sample_clean (Timestamp 2023 1 1, Timestamp 2023 2 28) [''North''] []) = [1, 5]"
  using empty_selection_selects_all[of sample_clean "Timestamp 2023 1 1" "Timestamp 2023 2 28"]
  by (simp add: sample_clean_def clean_data_def sample_data_def sample_row_def parse_iso_def
        digit_def drop_duplicates_def derive_def ts_le_def)

section \<open>Key performance indicators of an empty selection\<close>

lemma render_kpis_empty:
  "render_kpis [] = \<lparr>total_sales = 0, total_profit = 0, total_orders = 0, total_quantity = 0,
                      aov = 0, margin = 0\<rparr>"
  by (simp add: render_kpis_def)

lemma calculate_kpis_empty:
  "Average_Order_Value (calculate_kpis []) = NaN \<and> Overall_Profit_Margin (calculate_kpis []) = NaN"
  by (simp add: calculate_kpis_def percent_def true_divide_def)

text \<open>
  Claim C5. When the filters select no row, \<^verbatim>\<open>render_kpis\<close> shows zero for all six values
  and raises nothing, and the trend chart is skipped. In general its average order value is
  total Sales over the number of orders, guarded against zero orders, and its margin is
  total Profit over total Sales times 100, guarded against total Sales not above zero.
\<close>

theorem empty_filter_degradation:
  assumes "apply_filters df date_range regions categories = []"
  shows "render_kpis (apply_filters df date_range regions categories)
           = \<lparr>total_sales = 0, total_profit = 0, total_orders = 0, total_quantity = 0,
              aov = 0, margin = 0\<rparr> \<and>
         render_monthly_trend (apply_filters df date_range regions categories) = None \<and>
         aov (render_kpis fd)
           = (if 0 < length fd then of_int (sum_list (map Sales fd)) / of_int (int (length fd)) else 0) \<and>
         margin (render_kpis fd)
           = (if 0 < sum_list (map Sales fd)
              then of_int (sum_list (map Profit fd)) / of_int (sum_list (map Sales fd)) * 100
              else 0)"
proof -
  have "aov (render_kpis fd)
          = (if 0 < length fd then of_int (sum_list (map Sales fd)) / of_int (int (length fd)) else 0)"
    by (simp add: render_kpis_def Let_def)
  moreover
  have "margin (render_kpis fd)
          = (if 0 < sum_list (map Sales fd)
             then of_int (sum_list (map Profit fd)) / of_int (sum_list (map Sales fd)) * 100
             else 0)"
    by (cases "fd = []") (simp_all add: render_kpis_def Let_def)
  ultimately show ?thesis
    by (simp only: assms render_kpis_empty render_monthly_trend_def if_True simp_thms)
qed

theorem empty_filter_degradation_witness:
  "apply_filters sample_clean (Timestamp 2023 1 1, Timestamp 2023 12 31) [''Mars''] [] = [] \<and>
   render_kpis (apply_filters sample_clean (Timestamp 2023 1 1, Timestamp 2023 12 31) [''Mars''] [])
     = \<lparr>total_sales = 0, total_profit = 0, total_orders = 0, total_quantity = 0,
        aov = 0, margin = 0\<rparr> \<and>
   aov (render_kpis sample_clean) = 19750 \<and>
   margin (render_kpis sample_clean) = 1165 / 79"
proof -
  have e: "apply_filters sample_clean (Timestamp 2023 1 1, Timestamp 2023 12 31) [''Mars''] [] = []"
    by (simp add: apply_filters_eq sample_clean_def clean_data_def sample_data_def sample_row_def
          parse_iso_def digit_def drop_duplicates_def derive_def)
  have s: "sum_list (map Sales sample_clean) = 158000" "sum_list (map Profit sample_clean) = 23300"
          "length sample_clean = 8"
    by (simp_all add: sample_clean_def clean_data_def sample_data_def sample_row_def
          parse_iso_def digit_def drop_duplicates_def derive_def)
  show ?thesis
    using empty_filter_degradation[OF e, of sample_clean] by (simp add: e s)
qed

section \<open>Cleaning a cleaned frame\<close>

lemma to_datetime_col_as_input:
  "to_datetime_col parse (map OrderDate (map as_input cdf)) = Some (map OrderDate cdf)"
  by (induction cdf) (simp_all add: as_input_def)

lemma derive_as_input:
  assumes "Month r = month (OrderDate r)" "MonthName r = strftime_B (OrderDate r)"
          "Year r = year (OrderDate r)" "Profit_Margin r = percent (Profit r) (Sales r)"
  shows "derive (OrderDate r) (as_input r) = r"
  using assms by (cases r) (simp add: derive_def as_input_def)

lemma map2_derive_as_input:
  assumes "list_all (\<lambda>r. Month r = month (OrderDate r) \<and> MonthName r = strftime_B (OrderDate r) \<and>
                    Year r = year (OrderDate r) \<and>
                    Profit_Margin r = percent (Profit r) (Sales r)) cdf"
  shows "map2 derive (map OrderDate cdf) (map as_input cdf) = cdf"
  using assms by (induction cdf) (simp_all add: derive_as_input)

lemma drop_duplicates_distinct: "distinct xs \<Longrightarrow> drop_duplicates xs = xs"
  by (simp add: drop_duplicates_def distinct_remdups_id)

lemma distinct_drop_duplicates: "distinct (drop_duplicates xs)"
  by (simp add: drop_duplicates_def)

lemma set_drop_duplicates: "set (drop_duplicates xs) = set xs"
  by (simp add: drop_duplicates_def)

lemma derived_map2_derive:
  "list_all (\<lambda>r. Month r = month (OrderDate r) \<and> MonthName r = strftime_B (OrderDate r) \<and>
                 Year r = year (OrderDate r) \<and>
                 Profit_Margin r = percent (Profit r) (Sales r)) (map2 derive ts df)"
  by (auto simp: list_all_iff derive_def in_set_zip)

lemma clean_data_normalized:
  assumes "clean_data parse df = Inr cdf"
  shows "normalized cdf"
proof -
  from assms obtain ts where cdf: "cdf = drop_duplicates (map2 derive ts df)"
    by (auto simp: clean_data_def split: option.splits)
  have "list_all (\<lambda>r. Month r = month (OrderDate r) \<and> MonthName r = strftime_B (OrderDate r) \<and>
                 Year r = year (OrderDate r) \<and>
                 Profit_Margin r = percent (Profit r) (Sales r)) cdf"
    using derived_map2_derive[of ts df]
    unfolding cdf list_all_iff set_drop_duplicates .
  thus ?thesis
    by (simp add: normalized_def cdf distinct_drop_duplicates)
qed

text \<open>
  Claim C9. Cleaning a normalized frame again changes nothing: the dates stay, each derived
  column is computed to the value it has, and no row is dropped as a duplicate. Every
  result of \<^verbatim>\<open>clean_data\<close> is such a frame (\<open>clean_data_normalized\<close>).
\<close>

theorem normalization_idempotent:
  assumes "normalized cdf"
  shows "clean_data parse (map as_input cdf) = Inr cdf"
proof -
  have "map2 derive (map OrderDate cdf) (map as_input cdf) = cdf"
    using assms by (simp add: normalized_def map2_derive_as_input)
  moreover have "drop_duplicates cdf = cdf"
    using assms by (simp add: normalized_def drop_duplicates_distinct)
  ultimately show ?thesis
    unfolding clean_data_def by (simp only: to_datetime_col_as_input option.case)
qed

theorem normalization_idempotent_witness:
  "clean_data parse_iso sample_data = Inr sample_clean \<and> normalized sample_clean \<and>
   length sample_clean = 8 \<and>
   clean_data parse_iso (map as_input sample_clean) = Inr sample_clean"
proof -
  have n: "normalized sample_clean"
    by (rule clean_data_normalized[OF clean_sample_data])
  have "length sample_clean = 8"
    by (simp add: sample_clean_def clean_data_def sample_data_def sample_row_def
          parse_iso_def digit_def drop_duplicates_def derive_def)
  thus ?thesis
    using normalization_idempotent[OF n, of parse_iso] clean_sample_data n by simp
qed

section \<open>The monthly trend\<close>

lemma strftime_B_month: "month t = month t' \<Longrightarrow> strftime_B t = strftime_B t'"
  by (simp add: strftime_B_def)

lemma month_key_le_chrono:
  fixes a b :: "int \<times> int \<times> string"
  shows "a \<le> b \<Longrightarrow> chrono_le (year_month a) (year_month b)"
  by (auto simp: chrono_le_def year_month_def less_eq_prod_def)

lemma month_key_le_pair:
  fixes a b :: "int \<times> int \<times> string"
  shows "a \<le> b \<Longrightarrow> year_month a \<le> year_month b"
  by (auto simp: year_month_def less_eq_prod_def)

lemma chrono_sorted_keys:
  fixes ks :: "(int \<times> int \<times> string) list"
  assumes "sorted ks"
  shows "sorted_wrt chrono_le (map year_month ks)"
proof -
  have "sorted_wrt (\<lambda>a b. chrono_le (year_month a) (year_month b)) ks"
    using assms month_key_le_chrono by (auto intro: sorted_wrt_mono_rel[of ks "(\<le>)"])
  thus ?thesis by (simp add: sorted_wrt_map)
qed

lemma pair_sorted_keys:
  fixes ks :: "(int \<times> int \<times> string) list"
  assumes "sorted ks"
  shows "sorted (map year_month ks)"
proof -
  have "sorted_wrt (\<lambda>a b. year_month a \<le> year_month b) ks"
    using assms month_key_le_pair by (auto intro: sorted_wrt_mono_rel[of ks "(\<le>)"])
  thus ?thesis by (simp add: sorted_wrt_map)
qed

lemma normalized_month_name:
  assumes "normalized df" "r \<in> set df" "r' \<in> set df" "Month r = Month r'"
  shows "MonthName r = MonthName r'"
proof -
  have "month (OrderDate r) = month (OrderDate r')"
    using assms by (auto simp: normalized_def list_all_iff)
  hence "strftime_B (OrderDate r) = strftime_B (OrderDate r')"
    by (rule strftime_B_month)
  thus ?thesis
    using assms by (auto simp: normalized_def list_all_iff)
qed

lemma month_key_less_chrono:
  fixes a b :: "int \<times> int \<times> string"
  assumes "a < b" "fst (snd a) = fst (snd b) \<Longrightarrow> snd (snd a) = snd (snd b)"
  shows "chrono_less (year_month a) (year_month b)"
proof -
  obtain y m n where a: "a = (y, m, n)" by (cases a) auto
  obtain y' m' n' where b: "b = (y', m', n')" by (cases b) auto
  show ?thesis
  proof (cases "m = m'")
    case True
    with assms(2) have "n = n'" by (simp add: a b)
    with True assms(1) show ?thesis
      by (auto simp: a b chrono_less_def year_month_def less_prod_def less_eq_prod_def)
  next
    case False
    with assms(1) show ?thesis
      by (auto simp: a b chrono_less_def year_month_def less_prod_def less_eq_prod_def)
  qed
qed

lemma strict_chrono_sorted_keys:
  fixes ks :: "(int \<times> int \<times> string) list"
  assumes "sorted ks" "distinct ks"
      and name: "\<And>a b. a \<in> set ks \<Longrightarrow> b \<in> set ks \<Longrightarrow> fst (snd a) = fst (snd b)
                   \<Longrightarrow> snd (snd a) = snd (snd b)"
  shows "sorted_wrt chrono_less (map year_month ks)"
proof -
  have "sorted_wrt (<) ks"
    using assms(1,2) by (simp add: strict_sorted_iff)
  moreover have "chrono_less (year_month a) (year_month b)"
    if "a \<in> set ks" "b \<in> set ks" "a < b" for a b
    by (rule month_key_less_chrono[OF that(3)]) (rule name[OF that(1,2)])
  ultimately have "sorted_wrt (\<lambda>a b. chrono_less (year_month a) (year_month b)) ks"
    by (auto intro: sorted_wrt_mono_rel[of ks "(<)"])
  thus ?thesis by (simp add: sorted_wrt_map)
qed

lemma monthly_keys: "map gkey (monthly_trend_analysis df) = map fst (groupby month_key df)"
  by (simp only: monthly_trend_analysis_def map_gkey_aggregate)

lemma render_monthly_trend_eq:
  assumes "df \<noteq> []"
  shows "render_monthly_trend df =
           Some (map (\<lambda>g. (fst g, sum_list (map Sales (snd g)), sum_list (map Profit (snd g))))
                   (groupby month_key df))"
proof -
  let ?rows = "map (\<lambda>g. (fst g, sum_list (map Sales (snd g)), sum_list (map Profit (snd g))))
                   (groupby month_key df)"
  have eq: "map (\<lambda>row. (fst (fst row), fst (snd (fst row)))) ?rows
          = map year_month (map fst (groupby month_key df))"
    by (simp add: comp_def year_month_def)
  have "sorted (map (\<lambda>row. (fst (fst row), fst (snd (fst row)))) ?rows)"
    unfolding eq by (rule pair_sorted_keys[OF sorted_groupby_keys])
  hence "sort_key (\<lambda>row. (fst (fst row), fst (snd (fst row)))) ?rows = ?rows"
    by (rule sort_key_id_if_sorted)
  thus ?thesis
    using assms by (simp add: render_monthly_trend_def)
qed

text \<open>
  Claim C8. The monthly trend has one row per (Year, Month, MonthName) value of the frame,
  so rows of the same month number in different years feed different output rows; each
  output row sums the rows of its own key. On a cleaned frame the output is in strictly
  chronological order, Year first and then Month (one row per year and month), and
  \<^verbatim>\<open>render_monthly_trend\<close> draws the same groups in the same order.
\<close>

theorem monthly_trend_chronological:
  assumes "normalized df"
  shows "distinct (map gkey (monthly_trend_analysis df)) \<and>
         set (map gkey (monthly_trend_analysis df)) = month_key ` set df \<and>
         (\<forall>row\<in>set (monthly_trend_analysis df).
             Sales_sum row = sum_list (map Sales (filter (\<lambda>r. month_key r = gkey row) df))) \<and>
         (\<forall>r\<in>set df. \<forall>r'\<in>set df. Year r \<noteq> Year r' \<longrightarrow>
             (\<exists>row\<in>set (monthly_trend_analysis df). \<exists>row'\<in>set (monthly_trend_analysis df).
                 gkey row = month_key r \<and> gkey row' = month_key r' \<and> row \<noteq> row')) \<and>
         sorted_wrt chrono_less (map (year_month \<circ> gkey) (monthly_trend_analysis df)) \<and>
         (df \<noteq> [] \<longrightarrow>
            (\<exists>trend. render_monthly_trend df = Some trend \<and>
                     map fst trend = map gkey (monthly_trend_analysis df) \<and>
                     map (fst \<circ> snd) trend = map Sales_sum (monthly_trend_analysis df)))"
proof -
  let ?out = "monthly_trend_analysis df"
  have d: "distinct (map gkey ?out)" and s: "set (map gkey ?out) = month_key ` set df"
    unfolding monthly_trend_analysis_def by (rule aggregate_keys)+
  have rows: "\<forall>row\<in>set ?out.
                Sales_sum row = sum_list (map Sales (filter (\<lambda>r. month_key r = gkey row) df))"
    unfolding monthly_trend_analysis_def using aggregate_row(1) by blast
  have years: "\<exists>row\<in>set ?out. \<exists>row'\<in>set ?out.
                 gkey row = month_key r \<and> gkey row' = month_key r' \<and> row \<noteq> row'"
    if "r \<in> set df" "r' \<in> set df" "Year r \<noteq> Year r'" for r r'
  proof -
    have "month_key r \<in> set (map gkey ?out)" "month_key r' \<in> set (map gkey ?out)"
      using that s by auto
    then obtain row row' where "row \<in> set ?out" "gkey row = month_key r"
        "row' \<in> set ?out" "gkey row' = month_key r'"
      by auto
    moreover have "month_key r \<noteq> month_key r'"
      using that(3) by (simp add: month_key_def)
    ultimately show ?thesis by force
  qed
  have name: "snd (snd a) = snd (snd b)"
    if "a \<in> set (map fst (groupby month_key df))" "b \<in> set (map fst (groupby month_key df))"
       "fst (snd a) = fst (snd b)" for a b
  proof -
    have "a \<in> month_key ` set df" "b \<in> month_key ` set df"
      using that(1,2) by (simp_all only: set_groupby_keys)
    then obtain r r' where "r \<in> set df" "a = month_key r" "r' \<in> set df" "b = month_key r'"
      by blast
    thus ?thesis
      using that(3) normalized_month_name[OF assms, of r r'] by (simp add: month_key_def)
  qed
  have "sorted_wrt chrono_less (map year_month (map fst (groupby month_key df)))"
    by (rule strict_chrono_sorted_keys[OF sorted_groupby_keys distinct_groupby_keys name])
  hence chrono: "sorted_wrt chrono_less (map (year_month \<circ> gkey) ?out)"
    by (simp only: monthly_keys[symmetric] map_map)
  have trend: "\<exists>trend. render_monthly_trend df = Some trend \<and>
                 map fst trend = map gkey ?out \<and> map (fst \<circ> snd) trend = map Sales_sum ?out"
    if "df \<noteq> []"
    by (simp add: render_monthly_trend_eq[OF that] monthly_trend_analysis_def
          map_gkey_aggregate map_Sales_sum_aggregate comp_def)
  show ?thesis
    using d s rows years chrono trend by blast
qed

theorem monthly_trend_chronological_witness:
  "normalized two_year_clean \<and>
   map gkey (monthly_trend_analysis two_year_clean)
     = [(2023, 1, ''January''), (2023, 2, ''February''), (2024, 1, ''January'')] \<and>
   map Sales_sum (monthly_trend_analysis two_year_clean) = [100, 50, 300] \<and>
   render_monthly_trend two_year_clean
     = Some [((2023, 1, ''January''), 100, 50), ((2023, 2, ''February''), 50, 5),
             ((2024, 1, ''January''), 300, 30)]"
proof -
  have c: "clean_data parse_iso two_year_orders = Inr two_year_clean"
    by (simp add: two_year_clean_def clean_data_def two_year_orders_def sample_row_def
          parse_iso_def digit_def)
  have n: "normalized two_year_clean"
    by (rule clean_data_normalized[OF c])
  have "map gkey (monthly_trend_analysis two_year_clean)
          = [(2023, 1, ''January''), (2023, 2, ''February''), (2024, 1, ''January'')]"
       "map Sales_sum (monthly_trend_analysis two_year_clean) = [100, 50, 300]"
       "render_monthly_trend two_year_clean
          = Some [((2023, 1, ''January''), 100, 50), ((2023, 2, ''February''), 50, 5),
                  ((2024, 1, ''January''), 300, 30)]"
    by (simp_all add: monthly_trend_analysis_def render_monthly_trend_def aggregate_def
          groupby_def agg_def month_key_def two_year_clean_def clean_data_def
          two_year_orders_def sample_row_def parse_iso_def digit_def drop_duplicates_def
          derive_def strftime_B_def)
  thus ?thesis
    using monthly_trend_chronological[OF n] n by simp
qed

section \<open>The Pareto analysis\<close>

lemma length_running: "length (running acc xs) = length xs"
  by (induction xs arbitrary: acc) simp_all

lemma length_np_cumsum: "length (np_cumsum xs) = length xs"
  by (cases xs) (simp_all add: length_running)

lemma length_cumsum: "length (cumsum xs) = length xs"
  by (simp add: cumsum_def Let_def length_np_cumsum)







lemma length_cumulative_pct: "length (cumulative_pct pd) = length pd"
  by (simp add: cumulative_pct_def length_cumsum pareto_data_pct_def Let_def)



lemma pareto_data_total:
  assumes "valid_indexer indexer"
  shows "sum_list (map snd (pareto_data indexer column metric df)) = sum_list (map metric df)"
proof -
  let ?sums = "map (\<lambda>g. (fst g, sum_list (map metric (snd g)))) (groupby column df)"
  have "sum_list (map snd ?sums) = sum_list (map metric df)"
    using sum_groupby[of metric column df] by (simp add: comp_def)
  thus ?thesis
    unfolding pareto_data_def by (simp only: sum_list_sort_values[OF assms])
qed


lemma length_pareto_data:
  assumes "valid_indexer indexer"
  shows "length (pareto_data indexer column metric df) = card (column ` set df)"
  unfolding pareto_data_def by (simp add: length_sort_values[OF assms] length_groupby)















lemma fadd_nonfinite: "\<not> is_finite x \<Longrightarrow> \<not> is_finite (fadd acc x)"
  by (cases acc; cases x) (simp_all add: is_finite_def)

lemma running_nonfinite:
  "i < length xs \<Longrightarrow> \<not> is_finite (xs ! i) \<Longrightarrow> \<not> is_finite (running acc xs ! i)"
proof (induction xs arbitrary: acc i)
  case Nil
  then show ?case by simp
next
  case (Cons x xs)
  show ?case
  proof (cases i)
    case 0
    with Cons.prems show ?thesis by (simp add: fadd_nonfinite)
  next
    case (Suc j)
    with Cons.prems have "j < length xs" "\<not> is_finite (xs ! j)" by simp_all
    from Cons.IH[OF this] Suc show ?thesis by simp
  qed
qed

lemma np_cumsum_nonfinite:
  assumes "i < length xs" "\<not> is_finite (xs ! i)"
  shows "\<not> is_finite (np_cumsum xs ! i)"
proof (cases xs)
  case Nil
  with assms show ?thesis by simp
next
  case (Cons x xs')
  show ?thesis
  proof (cases i)
    case 0
    with Cons assms show ?thesis by simp
  next
    case (Suc j)
    with Cons assms have "j < length xs'" "\<not> is_finite (xs' ! j)" by simp_all
    from running_nonfinite[OF this] Suc Cons show ?thesis by simp
  qed
qed

lemma cumsum_nonfinite:
  assumes "\<forall>x\<in>set xs. \<not> is_finite x"
  shows "\<forall>c\<in>set (cumsum xs). \<not> is_finite c"
proof
  fix c assume "c \<in> set (cumsum xs)"
  then obtain i where i: "i < length xs" "c = cumsum xs ! i"
    by (auto simp: in_set_conv_nth length_cumsum)
  let ?vals = "map (\<lambda>x. if isna x then Fin 0 else x) xs"
  have c: "c = (if isna (xs ! i) then NaN else np_cumsum ?vals ! i)"
    using i by (simp add: cumsum_def Let_def length_np_cumsum)
  show "\<not> is_finite c"
  proof (cases "isna (xs ! i)")
    case True
    with c show ?thesis by (simp add: is_finite_def)
  next
    case False
    have "\<not> is_finite (xs ! i)" using assms i(1) by simp
    with False i(1) have "\<not> is_finite (?vals ! i)" by simp
    moreover have "i < length ?vals" using i(1) by simp
    ultimately have "\<not> is_finite (np_cumsum ?vals ! i)" by (rule np_cumsum_nonfinite[rotated])
    with False c show ?thesis by simp
  qed
qed

lemma percent_zero_total: "\<not> is_finite (percent v 0)"
  by (simp add: percent_def true_divide_def is_finite_def)

lemma pct_zero_total:
  assumes "sum_list (map snd pd) = 0"
  shows "\<forall>x\<in>set (pareto_data_pct pd). \<not> is_finite x"
  using assms by (simp add: pareto_data_pct_def Let_def percent_zero_total)

lemma length_pareto_data_pct: "length (pareto_data_pct pd) = length pd"
  by (simp add: pareto_data_pct_def Let_def)

section \<open>The Pareto analysis of a zero total\<close>

text \<open>
  Claim C4, as amended. With a metric total of zero, \<^verbatim>\<open>pareto_analysis\<close> does not fail on
  a frame that has rows: it returns its three series, and every percentage and every
  cumulative percentage in them is nan or infinite. Only on a frame without rows does it
  raise, a ZeroDivisionError from the share of items it prints.
\<close>

theorem pareto_zero_total:
  assumes "valid_indexer indexer" and "sum_list (map metric df) = 0"
  shows "(df = [] \<longrightarrow> pareto_analysis indexer column metric df = Inl ZeroDivisionError) \<and>
         (df \<noteq> [] \<longrightarrow>
            (\<exists>pd pct cum.
               pareto_analysis indexer column metric df = Inr (pd, pct, cum) \<and>
               pd = pareto_data indexer column metric df \<and> pd \<noteq> [] \<and>
               length pct = length pd \<and> length cum = length pd \<and>
               (\<forall>p\<in>set pct. \<not> is_finite (snd p)) \<and>
               (\<forall>c\<in>set cum. \<not> is_finite (snd c))))"
proof -
  let ?pd = "pareto_data indexer column metric df"
  have len: "length ?pd = card (column ` set df)"
    by (rule length_pareto_data[OF assms(1)])
  have empty: "pareto_analysis indexer column metric df = Inl ZeroDivisionError" if "df = []"
    using that len by (simp add: pareto_analysis_def Let_def)
  have t: "sum_list (map snd ?pd) = 0"
    using pareto_data_total[OF assms(1), of column metric df] assms(2) by simp
  have pct: "\<forall>x\<in>set (pareto_data_pct ?pd). \<not> is_finite x"
    by (rule pct_zero_total[OF t])
  have cum: "\<forall>c\<in>set (cumulative_pct ?pd). \<not> is_finite c"
    unfolding cumulative_pct_def by (rule cumsum_nonfinite[OF pct])
  have full: "\<exists>pd pct cum.
               pareto_analysis indexer column metric df = Inr (pd, pct, cum) \<and>
               pd = ?pd \<and> pd \<noteq> [] \<and>
               length pct = length pd \<and> length cum = length pd \<and>
               (\<forall>p\<in>set pct. \<not> is_finite (snd p)) \<and>
               (\<forall>c\<in>set cum. \<not> is_finite (snd c))"
    if "df \<noteq> []"
  proof -
    have "column ` set df \<noteq> {}" using that by simp
    hence "card (column ` set df) \<noteq> 0" by simp
    hence ne: "?pd \<noteq> []" using len by auto
    hence r: "pareto_analysis indexer column metric df
             = Inr (?pd, zip (map fst ?pd) (pareto_data_pct ?pd),
                    zip (map fst ?pd) (cumulative_pct ?pd))"
      by (simp add: pareto_analysis_def Let_def)
    have "\<forall>p\<in>set (zip (map fst ?pd) (pareto_data_pct ?pd)). \<not> is_finite (snd p)"
      using pct by (auto dest: set_zip_rightD)
    moreover have "\<forall>c\<in>set (zip (map fst ?pd) (cumulative_pct ?pd)). \<not> is_finite (snd c)"
      using cum by (auto dest: set_zip_rightD)
    ultimately show ?thesis
      using r ne by (simp add: length_pareto_data_pct length_cumulative_pct)
  qed
  show ?thesis using empty full by blast
qed

theorem pareto_zero_total_witness:
  "valid_indexer stable_indexer \<and>
   sum_list (map Profit offsetting_orders) = 0 \<and>
   pareto_analysis stable_indexer ProductName Profit offsetting_orders
     = Inr ([(''Cup'', 5), (''Pen'', - 5)], [(''Cup'', PInf), (''Pen'', NInf)],
            [(''Cup'', PInf), (''Pen'', NaN)]) \<and>
   pareto_analysis stable_indexer ProductName Profit ([] :: datecell order list)
     = Inl ZeroDivisionError"
proof -
  have s: "sum_list (map Profit offsetting_orders) = 0"
    by (simp add: offsetting_orders_def sample_row_def)
  have s0: "sum_list (map Profit ([] :: datecell order list)) = 0"
    by simp
  have p: "pareto_data stable_indexer ProductName Profit offsetting_orders
             = [(''Cup'', 5), (''Pen'', - 5)]"
    by (simp add: pareto_data_def sort_values_stable_indexer groupby_def offsetting_orders_def
          sample_row_def)
  have "pareto_analysis stable_indexer ProductName Profit offsetting_orders
     = Inr ([(''Cup'', 5), (''Pen'', - 5)], [(''Cup'', PInf), (''Pen'', NInf)],
            [(''Cup'', PInf), (''Pen'', NaN)])"
    by (simp add: pareto_analysis_def p Let_def pareto_data_pct_def cumulative_pct_def
          cumsum_def percent_def true_divide_def isna_def)
  thus ?thesis
    using pareto_zero_total[OF valid_stable_indexer s0, of ProductName]
          pareto_zero_total[OF valid_stable_indexer s, of ProductName]
    by (simp add: valid_stable_indexer s)
qed

text \<open>
  The claim as stated (an explicit failure) fails on one order with Sales 0: the analysis
  returns, and the percentage of the only group is nan.
\<close>

theorem pareto_zero_total_counterexample:
  "sum_list (map Sales zero_orders) = 0 \<and>
   pareto_analysis stable_indexer ProductName Sales zero_orders
     = Inr ([(''Cup'', 0)], [(''Cup'', NaN)], [(''Cup'', NaN)])"
proof -
  have "pareto_data stable_indexer ProductName Sales zero_orders = [(''Cup'', 0)]"
    by (simp add: pareto_data_def sort_values_stable_indexer groupby_def zero_orders_def
          sample_row_def)
  thus ?thesis
    by (simp add: pareto_analysis_def Let_def pareto_data_pct_def cumulative_pct_def
          cumsum_def percent_def true_divide_def isna_def zero_orders_def sample_row_def)
qed

end
